theory Spec2Isabelle
  imports Complex_Main "HOL-Library.Sublist" "HOL-Library.Char_ord" "HOL-Library.List_Lexorder"
begin

section \<open>Python values\<close>

text \<open>
  The module handles values that come out of rendered YAML/JSON test files and out of
  salt execution modules. They are modelled by the JSON-shaped universe below, read with
  the semantics of Python 3: \<open>None\<close>, booleans, unbounded integers, text, lists and
  dictionaries. Floats are not part of the universe; nor is the \<open>OverflowError\<close> that
  only a constructor on floats raises (\<open>int\<close> of an infinity, \<open>float\<close> of too large
  an integer). A \<open>char\<close> stands for a code point below 256. A dictionary is the list of
  its items in insertion order; its keys are
  hashable values (no list, no dictionary) that are pairwise different under \<open>==\<close>.
\<close>

datatype pyval =
    PNone
  | PBool bool
  | PInt int
  | PStr string
  | PList "pyval list"
  | PDict "(pyval \<times> pyval) list"

type_synonym pydict = "(pyval \<times> pyval) list"

text \<open>
  Exceptions. The first four are raised by the module's own statements; the last two wrap
  what the salt collaborator raises, keeping apart the introspection calls
  (\<open>sys.list_modules\<close>, \<open>sys.list_functions\<close>) and the invocation of the operation
  under test (\<open>salt_lc.cmd\<close>). Of a collaborator's exception only its being a
  \<open>SaltException\<close> or not matters to the code.
\<close>

datatype cexc = SaltException | OtherException

datatype error =
    ValueError
  | TypeError
  | AttributeError
  | KeyError
  | IntrospectionError cexc
  | InvocationError cexc

subsection \<open>Truth value, numbers, hashing\<close>

fun truthy :: "pyval \<Rightarrow> bool" where
  "truthy PNone = False"
| "truthy (PBool b) = b"
| "truthy (PInt i) = (i \<noteq> 0)"
| "truthy (PStr s) = (s \<noteq> [])"
| "truthy (PList xs) = (xs \<noteq> [])"
| "truthy (PDict d) = (d \<noteq> [])"

text \<open>\<open>bool\<close> is a subclass of \<open>int\<close>: \<open>True\<close> is 1 and \<open>False\<close> is 0.\<close>

fun num_of :: "pyval \<Rightarrow> int option" where
  "num_of (PBool b) = Some (if b then 1 else 0)"
| "num_of (PInt i) = Some i"
| "num_of _ = None"

fun hashable :: "pyval \<Rightarrow> bool" where
  "hashable (PList xs) = False"
| "hashable (PDict d) = False"
| "hashable _ = True"

text \<open>Equality of two hashable values, as a dictionary lookup decides it.\<close>

fun key_eq :: "pyval \<Rightarrow> pyval \<Rightarrow> bool" where
  "key_eq PNone y = (y = PNone)"
| "key_eq (PStr s) y = (y = PStr s)"
| "key_eq (PList xs) y = False"
| "key_eq (PDict d) y = False"
| "key_eq x y = (case num_of y of Some j \<Rightarrow> num_of x = Some j | None \<Rightarrow> False)"

fun dict_get :: "pydict \<Rightarrow> pyval \<Rightarrow> pyval option" where
  "dict_get [] k = None"
| "dict_get ((k', v) # d) k = (if key_eq k' k then Some v else dict_get d k)"

text \<open>\<open>d[k] = v\<close>: an existing key keeps its place (and its key object), a new one goes last.\<close>

fun dict_set :: "pydict \<Rightarrow> pyval \<Rightarrow> pyval \<Rightarrow> pydict" where
  "dict_set [] k v = [(k, v)]"
| "dict_set ((k', v') # d) k v =
     (if key_eq k' k then (k', v) # d else (k', v') # dict_set d k v)"

fun dict_del :: "pydict \<Rightarrow> pyval \<Rightarrow> pydict" where
  "dict_del [] k = []"
| "dict_del ((k', v') # d) k = (if key_eq k' k then d else (k', v') # dict_del d k)"

subsection \<open>The operator \<open>==\<close>\<close>

fun py_eq :: "pyval \<Rightarrow> pyval \<Rightarrow> bool"
  and py_eq_list :: "pyval list \<Rightarrow> pyval list \<Rightarrow> bool"
  and py_eq_items :: "pydict \<Rightarrow> pydict \<Rightarrow> bool" where
  "py_eq PNone y = (y = PNone)"
| "py_eq (PBool b) y = (case num_of y of Some j \<Rightarrow> (if b then 1 else 0) = j | None \<Rightarrow> False)"
| "py_eq (PInt i) y = (case num_of y of Some j \<Rightarrow> i = j | None \<Rightarrow> False)"
| "py_eq (PStr s) y = (y = PStr s)"
| "py_eq (PList xs) y = (case y of PList ys \<Rightarrow> py_eq_list xs ys | _ \<Rightarrow> False)"
| "py_eq (PDict d) y =
     (case y of PDict e \<Rightarrow> length d = length e \<and> py_eq_items d e | _ \<Rightarrow> False)"
| "py_eq_list [] ys = (ys = [])"
| "py_eq_list (x # xs) ys =
     (case ys of [] \<Rightarrow> False | y # ys' \<Rightarrow> py_eq x y \<and> py_eq_list xs ys')"
| "py_eq_items [] e = True"
| "py_eq_items ((k, v) # d) e =
     ((case dict_get e k of None \<Rightarrow> False | Some w \<Rightarrow> py_eq v w) \<and> py_eq_items d e)"

text \<open>\<open>x in [a, b, ...]\<close> for a list literal of the source.\<close>

definition in_list :: "pyval \<Rightarrow> pyval list \<Rightarrow> bool" where
  "in_list x ys = list_ex (\<lambda>y. py_eq y x) ys"

subsection \<open>\<open>str\<close> and \<open>repr\<close>\<close>

function str_of_nat :: "nat \<Rightarrow> string" where
  "str_of_nat n =
     (if n < 10 then [''0123456789'' ! n]
      else str_of_nat (n div 10) @ [''0123456789'' ! (n mod 10)])"
  by pat_completeness auto
termination
  by (relation "measure id") auto

declare str_of_nat.simps [simp del]

definition str_of_int :: "int \<Rightarrow> string" where
  "str_of_int i = (if i < 0 then CHR ''-'' # str_of_nat (nat (- i)) else str_of_nat (nat i))"

definition hex2 :: "nat \<Rightarrow> string" where
  "hex2 n = [''0123456789abcdef'' ! (n div 16), ''0123456789abcdef'' ! (n mod 16)]"

text \<open>
  \<open>repr\<close> of a text: single quotes unless the text holds a single quote and no double
  quote; the quote and the backslash are escaped; tab, newline and carriage return have
  their letters; the other control characters and the unprintable code points of
  Latin-1 (0x7f to 0xa0 and 0xad) are written \<open>\xNN\<close>.
\<close>

definition repr_quote :: "string \<Rightarrow> char" where
  "repr_quote s = (if CHR 0x27 \<in> set s \<and> CHR 0x22 \<notin> set s then CHR 0x22 else CHR 0x27)"

definition repr_char :: "char \<Rightarrow> char \<Rightarrow> string" where
  "repr_char q c =
     (let n = (of_char c :: nat) in
      if c = q \<or> c = CHR 0x5C then [CHR 0x5C, c]
      else if n = 9 then [CHR 0x5C, CHR ''t'']
      else if n = 10 then [CHR 0x5C, CHR ''n'']
      else if n = 13 then [CHR 0x5C, CHR ''r'']
      else if n < 32 \<or> (127 \<le> n \<and> n \<le> 160) \<or> n = 173 then CHR 0x5C # CHR ''x'' # hex2 n
      else [c])"

definition repr_str :: "string \<Rightarrow> string" where
  "repr_str s = (let q = repr_quote s in q # concat (map (repr_char q) s) @ [q])"

fun join :: "string \<Rightarrow> string list \<Rightarrow> string" where
  "join sep [] = []"
| "join sep [x] = x"
| "join sep (x # y # ys) = x @ sep @ join sep (y # ys)"

function py_repr :: "pyval \<Rightarrow> string"
  and py_repr_list :: "pyval list \<Rightarrow> string list"
  and py_repr_items :: "pydict \<Rightarrow> string list" where
  "py_repr PNone = ''None''"
| "py_repr (PBool b) = (if b then ''True'' else ''False'')"
| "py_repr (PInt i) = str_of_int i"
| "py_repr (PStr s) = repr_str s"
| "py_repr (PList xs) = ''['' @ join '', '' (py_repr_list xs) @ '']''"
| "py_repr (PDict d) = ''{'' @ join '', '' (py_repr_items d) @ ''}''"
| "py_repr_list [] = []"
| "py_repr_list (x # xs) = py_repr x # py_repr_list xs"
| "py_repr_items [] = []"
| "py_repr_items ((k, v) # d) = (py_repr k @ '': '' @ py_repr v) # py_repr_items d"
  by pat_completeness auto
termination
  by (relation "measure (\<lambda>s. case s of
         Inl v \<Rightarrow> size v
       | Inr (Inl xs) \<Rightarrow> size_list size xs
       | Inr (Inr d) \<Rightarrow> size_list (size_prod size size) d)") auto

text \<open>
  \<open>str(x)\<close>, which is also what \<open>"{0}".format(x)\<close> inserts. Every mapping is
  printed as a plain \<open>dict\<close>; an \<open>OrderedDict\<close>, as the loader makes of the mappings
  in a test file, prints with its class name around its items. The difference shows in the
  text of a failure message only.
\<close>

fun py_str :: "pyval \<Rightarrow> string" where
  "py_str (PStr s) = s"
| "py_str x = py_repr x"

subsection \<open>\<open>int\<close> of a text\<close>

text \<open>
  Base 10, as \<open>int(s)\<close> reads it: white space around, an optional sign, decimal digits
  with single underscores between them. The white space that \<open>int\<close> strips is
  narrower than that of \<open>str.strip\<close>: of the ASCII characters only tab to carriage
  return (9 to 13) and the space, not the separators 0x1c to 0x1f; beyond ASCII the spaces
  0x85 and 0xa0, which \<open>int\<close> first turns into ASCII spaces. (The interpreter's limit
  on the number of digits is not modelled.)
\<close>

definition is_space :: "char \<Rightarrow> bool" where
  "is_space c =
     (let n = (of_char c :: nat) in (9 \<le> n \<and> n \<le> 13) \<or> n = 32 \<or> n = 133 \<or> n = 160)"

definition strip :: "string \<Rightarrow> string" where
  "strip s = rev (dropWhile is_space (rev (dropWhile is_space s)))"

definition digit_val :: "char \<Rightarrow> nat option" where
  "digit_val c =
     (let n = (of_char c :: nat) in if 48 \<le> n \<and> n \<le> 57 then Some (n - 48) else None)"

fun parse_digits :: "nat \<Rightarrow> string \<Rightarrow> nat option" where
  "parse_digits acc [] = Some acc"
| "parse_digits acc (c # cs) =
     (if c = CHR ''_'' then
        (case cs of
           [] \<Rightarrow> None
         | d # _ \<Rightarrow> if digit_val d = None then None else parse_digits acc cs)
      else
        (case digit_val c of
           None \<Rightarrow> None
         | Some v \<Rightarrow> parse_digits (acc * 10 + v) cs))"

definition parse_unsigned :: "string \<Rightarrow> nat option" where
  "parse_unsigned u =
     (case u of
        [] \<Rightarrow> None
      | c # _ \<Rightarrow> if digit_val c = None then None else parse_digits 0 u)"

definition int_of_text :: "string \<Rightarrow> int option" where
  "int_of_text s =
     (case strip s of
        [] \<Rightarrow> None
      | c # r \<Rightarrow>
          if c = CHR ''-'' then map_option (\<lambda>n. - int n) (parse_unsigned r)
          else if c = CHR ''+'' then map_option int (parse_unsigned r)
          else map_option int (parse_unsigned (c # r)))"

subsection \<open>Membership and ordering\<close>

text \<open>
  \<open>x in y\<close>: a text contains texts only, a list is searched with \<open>==\<close>, a dictionary
  is asked for a key and so must hash \<open>x\<close>; nothing else is a container.
\<close>

fun py_contains :: "pyval \<Rightarrow> pyval \<Rightarrow> error + bool" where
  "py_contains x (PStr t) = (case x of PStr s \<Rightarrow> Inr (sublist s t) | _ \<Rightarrow> Inl TypeError)"
| "py_contains x (PList ys) = Inr (list_ex (\<lambda>y. py_eq y x) ys)"
| "py_contains x (PDict d) =
     (if hashable x then Inr (dict_get d x \<noteq> None) else Inl TypeError)"
| "py_contains x _ = Inl TypeError"

datatype cmp_op = OpLt | OpLe | OpGt | OpGe

fun op_holds :: "cmp_op \<Rightarrow> 'a::linorder \<Rightarrow> 'a \<Rightarrow> bool" where
  "op_holds OpLt a b = (a < b)"
| "op_holds OpLe a b = (a \<le> b)"
| "op_holds OpGt a b = (a > b)"
| "op_holds OpGe a b = (a \<ge> b)"

text \<open>
  The ordering operators of Python 3: numbers with numbers, texts with texts by code
  point, lists with lists at the first pair of items that are not \<open>==\<close> (or by length
  when there is none); every other pairing raises \<open>TypeError\<close>.
\<close>

fun py_compare :: "cmp_op \<Rightarrow> pyval \<Rightarrow> pyval \<Rightarrow> error + bool"
  and py_compare_lists :: "cmp_op \<Rightarrow> pyval list \<Rightarrow> pyval list \<Rightarrow> error + bool" where
  "py_compare opr PNone y = Inl TypeError"
| "py_compare opr (PBool b) y =
     (case num_of y of Some j \<Rightarrow> Inr (op_holds opr (if b then 1 else 0) j) | None \<Rightarrow> Inl TypeError)"
| "py_compare opr (PInt i) y =
     (case num_of y of Some j \<Rightarrow> Inr (op_holds opr i j) | None \<Rightarrow> Inl TypeError)"
| "py_compare opr (PStr s) y =
     (case y of PStr t \<Rightarrow> Inr (op_holds opr s t) | _ \<Rightarrow> Inl TypeError)"
| "py_compare opr (PList xs) y =
     (case y of PList ys \<Rightarrow> py_compare_lists opr xs ys | _ \<Rightarrow> Inl TypeError)"
| "py_compare opr (PDict d) y = Inl TypeError"
| "py_compare_lists opr [] ys = Inr (op_holds opr 0 (length ys))"
| "py_compare_lists opr (x # xs) ys =
     (case ys of
        [] \<Rightarrow> Inr (op_holds opr (Suc (length xs)) 0)
      | y # ys' \<Rightarrow> if py_eq x y then py_compare_lists opr xs ys' else py_compare opr x y)"

subsection \<open>Calling the type of a value\<close>

fun py_iter :: "pyval \<Rightarrow> pyval list option" where
  "py_iter (PStr s) = Some (map (\<lambda>c. PStr [c]) s)"
| "py_iter (PList xs) = Some xs"
| "py_iter (PDict d) = Some (map fst d)"
| "py_iter _ = None"

text \<open>
  \<open>dict(xs)\<close> for a list: every item must be iterable (\<open>TypeError\<close>) with exactly two
  items (\<open>ValueError\<close>), the first of them hashable (\<open>TypeError\<close>).
\<close>

fun dict_of_pairs :: "pydict \<Rightarrow> pyval list \<Rightarrow> error + pydict" where
  "dict_of_pairs acc [] = Inr acc"
| "dict_of_pairs acc (x # xs) =
     (case py_iter x of
        None \<Rightarrow> Inl TypeError
      | Some [k, v] \<Rightarrow> if hashable k then dict_of_pairs (dict_set acc k v) xs else Inl TypeError
      | Some _ \<Rightarrow> Inl ValueError)"

text \<open>
  \<open>type(returned)(expected)\<close>: the constructor of the class of \<open>returned\<close>, applied to
  \<open>expected\<close>. \<open>NoneType\<close> takes no argument at all. There is no case for a
  float on either side, as the universe has none; on floats the constructors raise
  \<open>OverflowError\<close> besides \<open>ValueError\<close> and \<open>TypeError\<close>.
\<close>

fun type_call :: "pyval \<Rightarrow> pyval \<Rightarrow> error + pyval" where
  "type_call PNone x = Inl TypeError"
| "type_call (PBool b) x = Inr (PBool (truthy x))"
| "type_call (PInt i) x =
     (case x of
        PInt j \<Rightarrow> Inr (PInt j)
      | PBool c \<Rightarrow> Inr (PInt (if c then 1 else 0))
      | PStr s \<Rightarrow> (case int_of_text s of None \<Rightarrow> Inl ValueError | Some j \<Rightarrow> Inr (PInt j))
      | _ \<Rightarrow> Inl TypeError)"
| "type_call (PStr s) x = Inr (PStr (py_str x))"
| "type_call (PList ys) x =
     (case py_iter x of None \<Rightarrow> Inl TypeError | Some xs \<Rightarrow> Inr (PList xs))"
| "type_call (PDict d) x =
     (case x of
        PDict e \<Rightarrow> Inr (PDict e)
      | PList xs \<Rightarrow> (case dict_of_pairs [] xs of Inl e \<Rightarrow> Inl e | Inr e \<Rightarrow> Inr (PDict e))
      | PStr s \<Rightarrow> if s = [] then Inr (PDict []) else Inl ValueError
      | _ \<Rightarrow> Inl TypeError)"

section \<open>The salt collaborator\<close>

text \<open>
  What the module asks of salt: the two introspection functions behind
  \<open>_is_valid_module\<close> and \<open>_is_valid_function\<close>, and the local caller
  \<open>salt_lc.cmd\<close> that runs the operation under test with positional and keyword
  arguments. Each either returns or raises. The two look-ups are memoised in the source,
  under a key that joins their arguments with commas: an answer may come from the cache,
  and then it is the one once computed for the same key. The cache is not modelled; a
  look-up answers with a truth value or raises either way, and the statements below hold for
  every collaborator, so for every such answer.
\<close>

record salt_env =
  list_modules :: "cexc + string list"
  list_functions :: "string \<Rightarrow> cexc + string list"
  cmd :: "pyval \<Rightarrow> pyval list \<Rightarrow> (string \<times> pyval) list \<Rightarrow> cexc + pyval"

definition is_valid_module :: "salt_env \<Rightarrow> string \<Rightarrow> error + bool" where
  "is_valid_module env module_name =
     (case list_modules env of
        Inl c \<Rightarrow> Inl (IntrospectionError c)
      | Inr modules \<Rightarrow> Inr (List.member modules module_name))"

definition is_valid_function :: "salt_env \<Rightarrow> string \<Rightarrow> string \<Rightarrow> error + bool" where
  "is_valid_function env module_name function =
     (case list_functions env module_name of
        Inl SaltException \<Rightarrow>
          Inr (List.member [''unable to look up functions''] (module_name @ ''.'' @ function))
      | Inl OtherException \<Rightarrow> Inl (IntrospectionError OtherException)
      | Inr functions \<Rightarrow> Inr (List.member functions (module_name @ ''.'' @ function)))"

section \<open>SaltCheck\<close>

definition assertions_list :: "pyval list" where
  "assertions_list =
     [PStr ''assertEqual'', PStr ''assertNotEqual'',
      PStr ''assertTrue'', PStr ''assertFalse'',
      PStr ''assertIn'', PStr ''assertNotIn'',
      PStr ''assertGreater'',
      PStr ''assertGreaterEqual'',
      PStr ''assertLess'', PStr ''assertLessEqual'',
      PStr ''assertEmpty'', PStr ''assertNotEmpty'']"

text \<open>\<open>test_dict.get(k, default)\<close> and \<open>test_dict[k]\<close>.\<close>

definition td_get :: "pydict \<Rightarrow> string \<Rightarrow> pyval \<Rightarrow> pyval" where
  "td_get td k dflt = (case dict_get td (PStr k) of None \<Rightarrow> dflt | Some v \<Rightarrow> v)"

definition td_index :: "pydict \<Rightarrow> string \<Rightarrow> error + pyval" where
  "td_index td k = (case dict_get td (PStr k) of None \<Rightarrow> Inl KeyError | Some v \<Rightarrow> Inr v)"

subsection \<open>\<open>__is_valid_test\<close>\<close>

fun split_on :: "char \<Rightarrow> string \<Rightarrow> string list" where
  "split_on c [] = [[]]"
| "split_on c (x # xs) =
     (if x = c then [] # split_on c xs
      else (case split_on c xs of [] \<Rightarrow> [[x]] | p # ps \<Rightarrow> (x # p) # ps))"

text \<open>
  The block under \<open>if m_and_f:\<close>. \<open>module, function = m_and_f.split('.')\<close> needs a
  text (anything else has no \<open>split\<close>) that splits into exactly two parts.
\<close>

definition score_m_and_f :: "salt_env \<Rightarrow> pyval \<Rightarrow> error + nat" where
  "score_m_and_f env m_and_f =
     (if truthy m_and_f then
        (case m_and_f of
           PStr s \<Rightarrow>
             (case split_on CHR ''.'' s of
                [module_name, function] \<Rightarrow>
                  (case is_valid_module env module_name of
                     Inl e \<Rightarrow> Inl e
                   | Inr vm \<Rightarrow>
                       (case is_valid_function env module_name function of
                          Inl e \<Rightarrow> Inl e
                        | Inr vf \<Rightarrow> Inr (1 + (if vm then 1 else 0) + (if vf then 1 else 0))))
              | _ \<Rightarrow> Inl ValueError)
         | _ \<Rightarrow> Inl AttributeError)
      else Inr 0)"

definition required_total :: "pydict \<Rightarrow> nat" where
  "required_total td =
     (let skip = td_get td ''skip'' (PBool False);
          m_and_f = td_get td ''module_and_function'' PNone;
          assertion = td_get td ''assertion'' PNone
      in if truthy skip then 0
         else if in_list m_and_f [PStr ''saltcheck.state_apply''] then 2
         else if in_list assertion [PStr ''assertEmpty'', PStr ''assertNotEmpty'',
                                    PStr ''assertTrue'', PStr ''assertFalse''] then 4
         else 6)"

definition is_valid_test :: "salt_env \<Rightarrow> pydict \<Rightarrow> error + bool" where
  "is_valid_test env td =
     (let m_and_f = td_get td ''module_and_function'' PNone;
          assertion = td_get td ''assertion'' PNone;
          exp_ret_key = (dict_get td (PStr ''expected-return'') \<noteq> None);
          exp_ret_val = td_get td ''expected-return'' PNone
      in case score_m_and_f env m_and_f of
           Inl e \<Rightarrow> Inl e
         | Inr tots \<Rightarrow>
             Inr (tots
                  + (if in_list assertion assertions_list then 1 else 0)
                  + (if exp_ret_key then 1 else 0)
                  + (if exp_ret_val \<noteq> PNone then 1 else 0)
                  \<ge> required_total td))"

subsection \<open>\<open>_call_salt_command\<close>\<close>

text \<open>\<open>*args\<close> needs an iterable; \<open>**kwargs\<close> needs a mapping whose keys are texts.\<close>

definition star_args :: "pyval \<Rightarrow> error + pyval list" where
  "star_args a = (case py_iter a of None \<Rightarrow> Inl TypeError | Some xs \<Rightarrow> Inr xs)"

fun kw_items :: "pydict \<Rightarrow> error + (string \<times> pyval) list" where
  "kw_items [] = Inr []"
| "kw_items ((k, v) # d) =
     (case k of
        PStr s \<Rightarrow> (case kw_items d of Inl e \<Rightarrow> Inl e | Inr r \<Rightarrow> Inr ((s, v) # r))
      | _ \<Rightarrow> Inl TypeError)"

definition star_kwargs :: "pyval \<Rightarrow> error + (string \<times> pyval) list" where
  "star_kwargs k = (case k of PDict d \<Rightarrow> kw_items d | _ \<Rightarrow> Inl TypeError)"

text \<open>
  The call \<open>self.salt_lc.cmd(fun, ...)\<close> itself. Whatever it raises counts as raised by
  the invocation, the binding of the arguments to the parameters of \<open>cmd\<close> included.
\<close>

definition invoke :: "salt_env \<Rightarrow> pyval \<Rightarrow> pyval list \<Rightarrow> (string \<times> pyval) list \<Rightarrow> error + pyval" where
  "invoke env fn xs kws =
     (case cmd env fn xs kws of Inl c \<Rightarrow> Inl (InvocationError c) | Inr v \<Rightarrow> Inr v)"

definition call_value :: "salt_env \<Rightarrow> pyval \<Rightarrow> pyval \<Rightarrow> pyval \<Rightarrow> error + pyval" where
  "call_value env fn args kwargs =
     (if truthy args \<and> truthy kwargs then
        (case star_args args of
           Inl e \<Rightarrow> Inl e
         | Inr xs \<Rightarrow>
             (case star_kwargs kwargs of Inl e \<Rightarrow> Inl e | Inr kws \<Rightarrow> invoke env fn xs kws))
      else if truthy args \<and> \<not> truthy kwargs then
        (case star_args args of Inl e \<Rightarrow> Inl e | Inr xs \<Rightarrow> invoke env fn xs [])
      else if \<not> truthy args \<and> truthy kwargs then
        (case star_kwargs kwargs of Inl e \<Rightarrow> Inl e | Inr kws \<Rightarrow> invoke env fn [] kws)
      else invoke env fn [] [])"

text \<open>
  The last statement of \<open>_call_salt_command\<close>: a dictionary is drilled into when
  \<open>assertion_section\<close> is truthy (\<open>dict.get\<close> hashes its key), anything else is
  returned as it is.
\<close>

definition drill :: "pyval \<Rightarrow> pyval \<Rightarrow> error + pyval" where
  "drill v assertion_section =
     (case v of
        PDict d \<Rightarrow>
          if truthy assertion_section then
            (if hashable assertion_section then
               Inr (PStr (py_str (case dict_get d assertion_section of
                                    None \<Rightarrow> PBool False
                                  | Some x \<Rightarrow> x)))
             else Inl TypeError)
          else Inr v
      | _ \<Rightarrow> Inr v)"

definition call_salt_command :: "salt_env \<Rightarrow> pyval \<Rightarrow> pyval \<Rightarrow> pyval \<Rightarrow> pyval \<Rightarrow> error + pyval" where
  "call_salt_command env fn args kwargs assertion_section =
     (case call_value env fn args kwargs of
        Inl e \<Rightarrow> Inl e
      | Inr v \<Rightarrow> drill v assertion_section)"

subsection \<open>\<open>_cast_expected_to_returned_type\<close>\<close>

text \<open>
  \<open>new_expected\<close> starts as \<open>expected\<close>; the text \<open>"False"\<close> becomes the boolean
  when a boolean was returned; the \<open>try\<close> catches \<open>ValueError\<close> and nothing else.
\<close>

fun is_bool :: "pyval \<Rightarrow> bool" where
  "is_bool (PBool b) = True"
| "is_bool _ = False"

definition cast_expected_to_returned_type :: "pyval \<Rightarrow> pyval \<Rightarrow> error + pyval" where
  "cast_expected_to_returned_type expected returned =
     (let new_expected = expected;
          expected' = (if py_eq expected (PStr ''False'') \<and> is_bool returned
                       then PBool False else expected)
      in case type_call returned expected' of
           Inr v \<Rightarrow> Inr v
         | Inl ValueError \<Rightarrow> Inr new_expected
         | Inl e \<Rightarrow> Inl e)"

subsection \<open>The assertion routines\<close>

text \<open>
  Each routine starts from \<open>"Pass"\<close>, evaluates the condition of its \<open>assert\<close>
  statement and turns an \<open>AssertionError\<close> into \<open>"Fail: "\<close> followed by the message.
  An exception raised while the condition is evaluated is not an \<open>AssertionError\<close> and
  leaves the routine.
\<close>

definition assert_equal :: "pyval \<Rightarrow> pyval \<Rightarrow> pyval \<Rightarrow> error + string" where
  "assert_equal expected returned assert_print_result =
     (if truthy assert_print_result then
        (if py_eq expected returned then Inr ''Pass''
         else Inr (''Fail: '' @ py_str expected @ '' is not equal to '' @ py_str returned))
      else
        (if py_eq expected returned then Inr ''Pass''
         else Inr (''Fail: '' @ ''Result is not equal'')))"

definition assert_not_equal :: "pyval \<Rightarrow> pyval \<Rightarrow> pyval \<Rightarrow> error + string" where
  "assert_not_equal expected returned assert_print_result =
     (if truthy assert_print_result then
        (if \<not> py_eq expected returned then Inr ''Pass''
         else Inr (''Fail: '' @ py_str expected @ '' is equal to '' @ py_str returned))
      else
        (if \<not> py_eq expected returned then Inr ''Pass''
         else Inr (''Fail: '' @ ''Result is equal'')))"

definition assert_true :: "pyval \<Rightarrow> error + string" where
  "assert_true returned =
     (if returned = PBool True then Inr ''Pass''
      else Inr (''Fail: '' @ py_str returned @ '' not True''))"

text \<open>\<open>bool(returned)\<close> of a text is its truth value: it does not read the text.\<close>

definition assert_false :: "pyval \<Rightarrow> error + string" where
  "assert_false returned0 =
     (let returned = (case returned0 of PStr s \<Rightarrow> PBool (truthy returned0) | _ \<Rightarrow> returned0)
      in if returned = PBool False then Inr ''Pass''
         else Inr (''Fail: '' @ py_str returned @ '' not False''))"

definition assert_in :: "pyval \<Rightarrow> pyval \<Rightarrow> pyval \<Rightarrow> error + string" where
  "assert_in expected returned assert_print_result =
     (case py_contains expected returned of
        Inl e \<Rightarrow> Inl e
      | Inr found \<Rightarrow>
          if found then Inr ''Pass''
          else if truthy assert_print_result then
            Inr (''Fail: '' @ py_str expected @ '' not found in '' @ py_str returned)
          else Inr (''Fail: '' @ ''Result not found''))"

definition assert_not_in :: "pyval \<Rightarrow> pyval \<Rightarrow> pyval \<Rightarrow> error + string" where
  "assert_not_in expected returned assert_print_result =
     (case py_contains expected returned of
        Inl e \<Rightarrow> Inl e
      | Inr found \<Rightarrow>
          if \<not> found then Inr ''Pass''
          else if truthy assert_print_result then
            Inr (''Fail: '' @ py_str expected @ '' was found in '' @ py_str returned)
          else Inr (''Fail: '' @ ''Result was found''))"

text \<open>The four ordering routines differ in the operator only.\<close>

definition assert_ordered :: "cmp_op \<Rightarrow> pyval \<Rightarrow> pyval \<Rightarrow> error + string" where
  "assert_ordered opr expected returned =
     (case py_compare opr expected returned of
        Inl e \<Rightarrow> Inl e
      | Inr holds \<Rightarrow>
          if holds then Inr ''Pass''
          else Inr (''Fail: '' @ py_str returned @ '' not False''))"

definition assert_greater :: "pyval \<Rightarrow> pyval \<Rightarrow> error + string" where
  "assert_greater expected returned = assert_ordered OpGt expected returned"

definition assert_greater_equal :: "pyval \<Rightarrow> pyval \<Rightarrow> error + string" where
  "assert_greater_equal expected returned = assert_ordered OpGe expected returned"

definition assert_less :: "pyval \<Rightarrow> pyval \<Rightarrow> error + string" where
  "assert_less expected returned = assert_ordered OpLt expected returned"

definition assert_less_equal :: "pyval \<Rightarrow> pyval \<Rightarrow> error + string" where
  "assert_less_equal expected returned = assert_ordered OpLe expected returned"

definition assert_empty :: "pyval \<Rightarrow> error + string" where
  "assert_empty returned =
     (if \<not> truthy returned then Inr ''Pass''
      else Inr (''Fail: '' @ py_str returned @ '' is not empty''))"

definition assert_not_empty :: "pyval \<Rightarrow> error + string" where
  "assert_not_empty returned =
     (if truthy returned then Inr ''Pass'' else Inr (''Fail: '' @ ''value is empty''))"

subsection \<open>\<open>run_test\<close>\<close>

text \<open>
  \<open>kwargs.update({key: data})\<close> and \<open>kwargs.pop(key)\<close>. Only a dictionary has
  \<open>update\<close>; a list has a \<open>pop\<close>, which wants an index.
\<close>

definition py_update :: "pyval \<Rightarrow> string \<Rightarrow> pyval \<Rightarrow> error + pyval" where
  "py_update kwargs key data =
     (case kwargs of
        PDict d \<Rightarrow> Inr (PDict (dict_set d (PStr key) data))
      | _ \<Rightarrow> Inl AttributeError)"

definition py_pop :: "pyval \<Rightarrow> string \<Rightarrow> error + pyval" where
  "py_pop kwargs key =
     (case kwargs of
        PDict d \<Rightarrow>
          (case dict_get d (PStr key) of
             None \<Rightarrow> Inl KeyError
           | Some _ \<Rightarrow> Inr (PDict (dict_del d (PStr key))))
      | PList xs \<Rightarrow> Inl TypeError
      | _ \<Rightarrow> Inl AttributeError)"

text \<open>
  The two blocks that put \<open>pillar-data\<close> and \<open>grain-data\<close> into \<open>kwargs\<close>, or take
  a left-over \<open>pillar\<close> or \<open>grain\<close> out of it.
\<close>

definition inject :: "pyval \<Rightarrow> string \<Rightarrow> pyval \<Rightarrow> error + pyval" where
  "inject kwargs key data =
     (if truthy data then py_update kwargs key data
      else
        (case py_contains (PStr key) kwargs of
           Inl e \<Rightarrow> Inl e
         | Inr present \<Rightarrow> if present then py_pop kwargs key else Inr kwargs))"

text \<open>The coercion of the expected value and the chain of \<open>if\<close>/\<open>elif\<close> on the assertion.\<close>

definition dispatch :: "pyval \<Rightarrow> pyval \<Rightarrow> pyval \<Rightarrow> pyval \<Rightarrow> error + string" where
  "dispatch assertion expected_return0 actual_return assert_print_result =
     (case (if \<not> in_list assertion
                    [PStr ''assertIn'', PStr ''assertNotIn'', PStr ''assertEmpty'',
                     PStr ''assertNotEmpty'', PStr ''assertTrue'', PStr ''assertFalse'']
            then cast_expected_to_returned_type expected_return0 actual_return
            else Inr expected_return0) of
        Inl e \<Rightarrow> Inl e
      | Inr expected_return \<Rightarrow>
          if py_eq assertion (PStr ''assertEqual'') then
            assert_equal expected_return actual_return assert_print_result
          else if py_eq assertion (PStr ''assertNotEqual'') then
            assert_not_equal expected_return actual_return assert_print_result
          else if py_eq assertion (PStr ''assertTrue'') then assert_true actual_return
          else if py_eq assertion (PStr ''assertFalse'') then assert_false actual_return
          else if py_eq assertion (PStr ''assertIn'') then
            assert_in expected_return actual_return assert_print_result
          else if py_eq assertion (PStr ''assertNotIn'') then
            assert_not_in expected_return actual_return assert_print_result
          else if py_eq assertion (PStr ''assertGreater'') then
            assert_greater expected_return actual_return
          else if py_eq assertion (PStr ''assertGreaterEqual'') then
            assert_greater_equal expected_return actual_return
          else if py_eq assertion (PStr ''assertLess'') then
            assert_less expected_return actual_return
          else if py_eq assertion (PStr ''assertLessEqual'') then
            assert_less_equal expected_return actual_return
          else if py_eq assertion (PStr ''assertEmpty'') then assert_empty actual_return
          else if py_eq assertion (PStr ''assertNotEmpty'') then assert_not_empty actual_return
          else Inr ''Fail - bad assertion'')"

text \<open>The assertion that is run: the one of the alias, or the one of the definition.\<close>

definition effective_assertion :: "pydict \<Rightarrow> pyval \<Rightarrow> error + pyval" where
  "effective_assertion td mod_and_func =
     (if in_list mod_and_func [PStr ''saltcheck.state_apply''] then Inr (PStr ''assertNotEmpty'')
      else td_index td ''assertion'')"

text \<open>
  The keyword arguments of the call: those of the definition (an empty dictionary when
  they are missing or falsy), after the two blocks above. (The source updates the
  \<open>kwargs\<close> object of the definition in place; nothing reads the definition
  afterwards.)
\<close>

definition final_kwargs :: "pydict \<Rightarrow> error + pyval" where
  "final_kwargs td =
     (let kwargs0 = td_get td ''kwargs'' (PDict []);
          kwargs1 = (if \<not> truthy kwargs0 then PDict [] else kwargs0)
      in case inject kwargs1 ''pillar'' (td_get td ''pillar-data'' (PDict [])) of
           Inl e \<Rightarrow> Inl e
         | Inr kwargs2 \<Rightarrow> inject kwargs2 ''grain'' (td_get td ''grain-data'' (PDict [])))"

text \<open>The body of \<open>run_test\<close> for a valid test that is not skipped, up to the status text.\<close>

definition run_valid :: "salt_env \<Rightarrow> pydict \<Rightarrow> error + string" where
  "run_valid env td =
     (case td_index td ''module_and_function'' of
        Inl e \<Rightarrow> Inl e
      | Inr mod_and_func \<Rightarrow>
          (let assertion_section = td_get td ''assertion_section'' PNone;
               args = td_get td ''args'' PNone
           in case final_kwargs td of
                Inl e \<Rightarrow> Inl e
              | Inr kwargs \<Rightarrow>
                  (case effective_assertion td mod_and_func of
                     Inl e \<Rightarrow> Inl e
                   | Inr assertion \<Rightarrow>
                       (let expected_return = td_get td ''expected-return'' PNone;
                            assert_print_result = td_get td ''print_result'' (PBool True)
                        in case call_salt_command env mod_and_func args kwargs
                                  assertion_section of
                             Inl e \<Rightarrow> Inl e
                           | Inr actual_return \<Rightarrow>
                               dispatch assertion expected_return actual_return
                                 assert_print_result))))"

text \<open>
  The result record. The clock readings and the duration are floats in the source; here
  they are rationals, and \<open>round(x, 4)\<close> rounds to the nearest multiple of \<open>1/10000\<close>,
  a tie going to the even one.
\<close>

record test_result =
  status :: string
  duration :: rat

definition round4 :: "rat \<Rightarrow> rat" where
  "round4 x =
     (let y = x * 10000; f = \<lfloor>y\<rfloor>; d = y - of_int f
      in of_int (if d < 1 / 2 then f else if 1 / 2 < d then f + 1
                 else if even f then f else f + 1) / 10000)"

text \<open>\<open>start\<close> and \<open>end\<close> are the two readings of \<open>time.time()\<close>.\<close>

definition run_test :: "salt_env \<Rightarrow> rat \<Rightarrow> rat \<Rightarrow> pydict \<Rightarrow> error + test_result" where
  "run_test env start end' test_dict =
     (case is_valid_test env test_dict of
        Inl e \<Rightarrow> Inl e
      | Inr valid \<Rightarrow>
          if valid then
            (if truthy (td_get test_dict ''skip'' (PBool False)) then
               Inr \<lparr>status = ''Skip'', duration = 0\<rparr>
             else
               (case run_valid env test_dict of
                  Inl e \<Rightarrow> Inl e
                | Inr v \<Rightarrow> Inr \<lparr>status = v, duration = round4 (end' - start)\<rparr>))
          else Inr \<lparr>status = ''Fail - invalid test'', duration = round4 (end' - start)\<rparr>)"

section \<open>StateTestLoader\<close>

text \<open>
  The file system as the loader sees it: \<open>os.path.isdir\<close>, \<open>os.path.isfile\<close>,
  \<open>os.path.abspath\<close>, and \<open>os_walk\<close>, which yields for a directory and each directory
  below it the triple of its name, its sub-directories and its files. \<open>os.sep\<close> is the
  slash.
\<close>

record file_system =
  isdir :: "string \<Rightarrow> bool"
  isfile :: "string \<Rightarrow> bool"
  abspath :: "string \<Rightarrow> string"
  os_walk :: "string \<Rightarrow> (string \<times> string list \<times> string list) list"

definition os_sep :: string where
  "os_sep = ''/''"

record loader =
  search_paths :: "string list"
  test_files :: "string list"
  test_dict :: "(string \<times> pyval) list"

text \<open>\<open>test_dict[key] = value\<close> on an \<open>OrderedDict\<close>.\<close>

fun od_set :: "('k \<times> 'v) list \<Rightarrow> 'k \<Rightarrow> 'v \<Rightarrow> ('k \<times> 'v) list" where
  "od_set [] k v = [(k, v)]"
| "od_set ((k', v') # d) k v = (if k' = k then (k', v) # d else (k', v') # od_set d k v)"

text \<open>
  \<open>rendered path\<close> stands for \<open>mydict.items()\<close>: the items, in order, of what the
  renderer made of the file, after the round trip through JSON.
\<close>

definition load_file_salt_rendered ::
  "(string \<Rightarrow> (string \<times> pyval) list) \<Rightarrow> loader \<Rightarrow> string \<Rightarrow> loader" where
  "load_file_salt_rendered rendered st filepath =
     st\<lparr>test_dict := fold (\<lambda>(key, val) d. od_set d key val) (rendered filepath) (test_dict st)\<rparr>"

definition load_test_suite :: "(string \<Rightarrow> (string \<times> pyval) list) \<Rightarrow> loader \<Rightarrow> loader" where
  "load_test_suite rendered st =
     (fold (\<lambda>myfile st'. load_file_salt_rendered rendered st' myfile) (test_files st)
        (st\<lparr>test_dict := []\<rparr>))
     \<lparr>test_files := []\<rparr>"

definition gather_files :: "file_system \<Rightarrow> loader \<Rightarrow> string \<Rightarrow> loader" where
  "gather_files fs st filepath0 =
     (let filepath = filepath0 @ os_sep @ ''saltcheck-tests''
      in st\<lparr>test_files :=
            concat (map (\<lambda>(dirname, dummy, filelist).
                      map (\<lambda>fname. abspath fs (dirname @ os_sep @ fname))
                        (filter (\<lambda>fname. suffix ''.tst'' fname) (sort filelist)))
                    (os_walk fs filepath))\<rparr>)"

definition convert_sls_to_path :: "string \<Rightarrow> string" where
  "convert_sls_to_path sls = concat (map (\<lambda>c. if c = CHR ''.'' then os_sep else [c]) sls)"

text \<open>\<open>s.rpartition(c)\<close>: what is before the last \<open>c\<close>, the separator, what is after.\<close>

definition rpartition :: "char \<Rightarrow> string \<Rightarrow> string \<times> string \<times> string" where
  "rpartition c s =
     (if c \<in> set s then
        (rev (tl (dropWhile (\<lambda>x. x \<noteq> c) (rev s))), [c], rev (takeWhile (\<lambda>x. x \<noteq> c) (rev s)))
      else ([], [], s))"

text \<open>The loop over the search paths, with its \<open>return\<close> from inside.\<close>

fun add_loop ::
  "file_system \<Rightarrow> string \<times> string \<times> string \<Rightarrow> bool \<Rightarrow> string list \<Rightarrow> loader \<Rightarrow> loader" where
  "add_loop fs sls_split check_all [] st = st"
| "add_loop fs sls_split check_all (path # paths) st =
     (let base_path = (if fst sls_split \<noteq> [] then path @ os_sep @ convert_sls_to_path (fst sls_split)
                       else path)
      in if isdir fs base_path then
           (if check_all then gather_files fs st (base_path @ os_sep @ snd (snd sls_split))
            else
              (let init_path = base_path @ os_sep @ snd (snd sls_split) @ os_sep
                                 @ ''saltcheck-tests'' @ os_sep @ ''init.tst'';
                   name_path = base_path @ os_sep @ ''saltcheck-tests'' @ os_sep
                                 @ snd (snd sls_split) @ ''.tst'';
                   st1 = (if isfile fs init_path
                          then st\<lparr>test_files := test_files st @ [init_path]\<rparr> else st);
                   st2 = (if isfile fs name_path
                          then st1\<lparr>test_files := test_files st1 @ [name_path]\<rparr> else st1)
               in add_loop fs sls_split check_all paths st2))
         else add_loop fs sls_split check_all paths st)"

definition add_test_files_for_sls :: "file_system \<Rightarrow> loader \<Rightarrow> string \<Rightarrow> bool \<Rightarrow> loader" where
  "add_test_files_for_sls fs st sls_name check_all =
     add_loop fs (rpartition CHR ''.'' sls_name) check_all (search_paths st) st"

section \<open>Notions used in the statements\<close>

text \<open>
  What every assertion routine is meant to return: \<open>"Pass"\<close>, or \<open>"Fail: "\<close> followed
  by a message.
\<close>

definition is_verdict :: "string \<Rightarrow> bool" where
  "is_verdict s = (s = ''Pass'' \<or> prefix ''Fail: '' s)"




text \<open>The expected value that reaches the routine: coerced unless the assertion is one of six.\<close>

definition coerced :: "pyval \<Rightarrow> pyval \<Rightarrow> pyval \<Rightarrow> error + pyval" where
  "coerced a x r =
     (if a = PStr ''assertIn'' \<or> a = PStr ''assertNotIn'' \<or> a = PStr ''assertEmpty''
         \<or> a = PStr ''assertNotEmpty'' \<or> a = PStr ''assertTrue'' \<or> a = PStr ''assertFalse''
      then Inr x else cast_expected_to_returned_type x r)"

text \<open>
  A collaborator for the examples: it knows the modules \<open>test\<close> and \<open>saltcheck\<close>, the
  function \<open>test.echo\<close>, and every operation returns \<open>v\<close>.
\<close>

definition returning_env :: "pyval \<Rightarrow> salt_env" where
  "returning_env v =
     \<lparr>list_modules = Inr [''test'', ''saltcheck''],
      list_functions = (\<lambda>m. Inr [''test.echo'']),
      cmd = (\<lambda>fn xs kws. Inr v)\<rparr>"


text \<open>
  A file system for the examples: under the root \<open>/srv\<close> the unit \<open>a\<close> has the named
  test file of \<open>a.b\<close> and a test directory for \<open>a.b\<close> with a sub-directory.
\<close>

definition demo_fs :: file_system where
  "demo_fs =
     \<lparr>isdir = (\<lambda>p. p = ''/srv/a''),
      isfile = (\<lambda>p. p = ''/srv/a/saltcheck-tests/b.tst''),
      abspath = (\<lambda>p. p),
      os_walk = (\<lambda>p. if p = ''/srv/a/b/saltcheck-tests''
                      then [(p, [''sub''], [''z.tst'', ''a.tst'', ''notes.txt'']),
                            (p @ ''/sub'', [], [''m.tst''])]
                      else [])\<rparr>"





section \<open>The assertion routines\<close>

lemma assert_equal_verdict: "\<exists>s. assert_equal e r p = Inr s \<and> is_verdict s"
  by (simp add: assert_equal_def is_verdict_def)

lemma assert_not_equal_verdict: "\<exists>s. assert_not_equal e r p = Inr s \<and> is_verdict s"
  by (simp add: assert_not_equal_def is_verdict_def)

lemma assert_true_verdict: "\<exists>s. assert_true r = Inr s \<and> is_verdict s"
  by (simp add: assert_true_def is_verdict_def)

lemma assert_false_verdict: "\<exists>s. assert_false r = Inr s \<and> is_verdict s"
  by (simp add: assert_false_def is_verdict_def Let_def)

lemma assert_empty_verdict: "\<exists>s. assert_empty r = Inr s \<and> is_verdict s"
  by (simp add: assert_empty_def is_verdict_def)

lemma assert_not_empty_verdict: "\<exists>s. assert_not_empty r = Inr s \<and> is_verdict s"
  by (simp add: assert_not_empty_def is_verdict_def)

lemma py_compare_error: "py_compare opr a b = Inl e \<Longrightarrow> e = TypeError"
  and py_compare_lists_error: "py_compare_lists opr xs ys = Inl e \<Longrightarrow> e = TypeError"
  by (induction opr a b and opr xs ys rule: py_compare_py_compare_lists.induct)
     (auto split: option.splits pyval.splits list.splits if_splits)

lemma py_contains_error: "py_contains x y = Inl e \<Longrightarrow> e = TypeError"
  by (cases y) (auto split: pyval.splits if_splits)




lemma assert_in_shape:
  "(\<exists>s. assert_in e r p = Inr s \<and> is_verdict s) \<or> assert_in e r p = Inl TypeError"
  by (cases "py_contains e r")
     (auto simp add: assert_in_def is_verdict_def dest: py_contains_error)

lemma assert_not_in_shape:
  "(\<exists>s. assert_not_in e r p = Inr s \<and> is_verdict s) \<or> assert_not_in e r p = Inl TypeError"
  by (cases "py_contains e r")
     (auto simp add: assert_not_in_def is_verdict_def dest: py_contains_error)

lemma assert_ordered_shape:
  "(\<exists>s. assert_ordered opr e r = Inr s \<and> is_verdict s) \<or> assert_ordered opr e r = Inl TypeError"
  by (cases "py_compare opr e r")
     (auto simp add: assert_ordered_def is_verdict_def dest: py_compare_error)




text \<open>What \<open>assertFalse\<close> does with a text: only the empty one passes.\<close>

lemma assert_false_on_text:
  "assert_false (PStr s) = (if s = [] then Inr ''Pass'' else Inr ''Fail: True not False'')"
  by (simp add: assert_false_def)

text \<open>
  C2. \<open>assertFalse\<close> is meant to pass on the text \<open>"False"\<close>, the sentinel that
  \<open>_call_salt_command\<close> produces. The routine takes the truth value of the text instead
  of reading it, so the text \<open>"False"\<close>, being non-empty, becomes \<open>True\<close> and the
  assertion fails with the message \<open>True not False\<close>.
\<close>

theorem assert_false_on_text_False:
  "assert_false (PStr ''False'') = Inr ''Fail: True not False''"
  by (simp add: assert_false_def)

section \<open>The coercion\<close>

lemma dict_of_pairs_error:
  "dict_of_pairs acc xs = Inl e \<Longrightarrow> e = TypeError \<or> e = ValueError"
  by (induction acc xs rule: dict_of_pairs.induct)
     (auto split: option.splits list.splits if_splits)

lemma type_call_error: "type_call r y = Inl e \<Longrightarrow> e = TypeError \<or> e = ValueError"
  by (cases r)
     (auto split: pyval.splits option.splits sum.splits if_splits dest: dict_of_pairs_error)

lemma cast_error: "cast_expected_to_returned_type x r = Inl e \<Longrightarrow> e = TypeError"
  by (auto simp add: cast_expected_to_returned_type_def Let_def
      split: sum.splits error.splits if_splits dest: type_call_error)

lemma coerced_error: "coerced a x r = Inl e \<Longrightarrow> e = TypeError"
  by (auto simp add: coerced_def split: if_splits dest: cast_error)

text \<open>
  For an expected text the coercion returns whenever something other than \<open>None\<close> was
  returned, and it returns the text itself when the constructor raised \<open>ValueError\<close>.
\<close>

lemma cast_text_returns:
  "returned \<noteq> PNone \<Longrightarrow> \<exists>v. cast_expected_to_returned_type (PStr s) returned = Inr v"
  by (cases returned)
     (auto simp add: cast_expected_to_returned_type_def Let_def split: option.splits)

lemma cast_text_fallback:
  "type_call returned (PStr s) = Inl ValueError \<Longrightarrow>
     cast_expected_to_returned_type (PStr s) returned = Inr (PStr s)"
  by (cases returned)
     (auto simp add: cast_expected_to_returned_type_def Let_def split: option.splits if_splits)

text \<open>
  C5. The coercion falls back to the expected text when the constructor raises
  \<open>ValueError\<close>. When the operation returned \<open>None\<close> the constructor is that of
  \<open>NoneType\<close>, which raises \<open>TypeError\<close>; the \<open>except\<close> clause does not catch
  it and the coercion raises.
\<close>

theorem cast_text_to_None_raises:
  "cast_expected_to_returned_type (PStr ''x'') PNone = Inl TypeError"
  by (simp add: cast_expected_to_returned_type_def)

section \<open>Validation\<close>

lemma score_m_and_f_le: "score_m_and_f env m = Inr n \<Longrightarrow> n \<le> 3"
  by (auto simp add: score_m_and_f_def split: if_splits pyval.splits list.splits sum.splits)

lemma score_m_and_f_falsy: "\<not> truthy m \<Longrightarrow> score_m_and_f env m = Inr 0"
  by (simp add: score_m_and_f_def)

lemma score_m_and_f_text: "truthy m \<Longrightarrow> score_m_and_f env m = Inr n \<Longrightarrow> \<exists>s. m = PStr s"
  by (auto simp add: score_m_and_f_def split: if_splits pyval.splits list.splits sum.splits)

lemma in_assertions_list:
  "in_list a assertions_list =
     (a = PStr ''assertEqual'' \<or> a = PStr ''assertNotEqual'' \<or> a = PStr ''assertTrue''
      \<or> a = PStr ''assertFalse'' \<or> a = PStr ''assertIn'' \<or> a = PStr ''assertNotIn''
      \<or> a = PStr ''assertGreater'' \<or> a = PStr ''assertGreaterEqual'' \<or> a = PStr ''assertLess''
      \<or> a = PStr ''assertLessEqual'' \<or> a = PStr ''assertEmpty'' \<or> a = PStr ''assertNotEmpty'')"
  by (simp add: in_list_def assertions_list_def)

lemma valid_not_skipped:
  assumes v: "is_valid_test env td = Inr True"
    and ns: "\<not> truthy (td_get td ''skip'' (PBool False))"
  shows "\<exists>m. dict_get td (PStr ''module_and_function'') = Some m \<and> truthy m
           \<and> (m = PStr ''saltcheck.state_apply''
               \<or> (\<exists>a. dict_get td (PStr ''assertion'') = Some a \<and> in_list a assertions_list))"
proof -
  let ?m = "td_get td ''module_and_function'' PNone"
  let ?a = "td_get td ''assertion'' PNone"
  from v obtain n where n: "score_m_and_f env ?m = Inr n"
    by (auto simp add: is_valid_test_def Let_def split: sum.splits)
  have le: "n \<le> 3" using n by (rule score_m_and_f_le)
  have tr: "truthy ?m"
  proof (rule ccontr)
    assume f: "\<not> truthy ?m"
    then have "n = 0" using n by (simp add: score_m_and_f_falsy)
    moreover have "?m \<noteq> PStr ''saltcheck.state_apply''" using f by auto
    ultimately show False using v ns n
      by (auto simp add: is_valid_test_def required_total_def Let_def in_list_def split: if_splits)
  qed
  then obtain m where m: "dict_get td (PStr ''module_and_function'') = Some m" "?m = m"
    by (auto simp add: td_get_def split: option.splits)
  have "m = PStr ''saltcheck.state_apply''
        \<or> (\<exists>a. dict_get td (PStr ''assertion'') = Some a \<and> in_list a assertions_list)"
  proof (cases "m = PStr ''saltcheck.state_apply''")
    case True then show ?thesis by simp
  next
    case False
    then have nal: "\<not> in_list ?m [PStr ''saltcheck.state_apply'']" using m by (simp add: in_list_def)
    have "in_list ?a assertions_list"
      using v ns n le nal
      by (auto simp add: is_valid_test_def required_total_def Let_def in_assertions_list
          split: if_splits)
         (auto simp add: in_list_def)
    moreover from this have "?a \<noteq> PNone" by (auto simp add: in_assertions_list)
    then have "\<exists>a. dict_get td (PStr ''assertion'') = Some a \<and> ?a = a"
      by (auto simp add: td_get_def split: option.splits)
    ultimately show ?thesis using False by auto
  qed
  with m tr show ?thesis by auto
qed


section \<open>The dispatch on the assertion\<close>

lemma in_no_cast_list:
  "in_list a [PStr ''assertIn'', PStr ''assertNotIn'', PStr ''assertEmpty'',
              PStr ''assertNotEmpty'', PStr ''assertTrue'', PStr ''assertFalse'']
   = (a = PStr ''assertIn'' \<or> a = PStr ''assertNotIn'' \<or> a = PStr ''assertEmpty''
      \<or> a = PStr ''assertNotEmpty'' \<or> a = PStr ''assertTrue'' \<or> a = PStr ''assertFalse'')"
  by (simp add: in_list_def)

lemma dispatch_unfold:
  "dispatch a x r p =
     (case coerced a x r of
        Inl e \<Rightarrow> Inl e
      | Inr x' \<Rightarrow>
          if a = PStr ''assertEqual'' then assert_equal x' r p
          else if a = PStr ''assertNotEqual'' then assert_not_equal x' r p
          else if a = PStr ''assertTrue'' then assert_true r
          else if a = PStr ''assertFalse'' then assert_false r
          else if a = PStr ''assertIn'' then assert_in x' r p
          else if a = PStr ''assertNotIn'' then assert_not_in x' r p
          else if a = PStr ''assertGreater'' then assert_greater x' r
          else if a = PStr ''assertGreaterEqual'' then assert_greater_equal x' r
          else if a = PStr ''assertLess'' then assert_less x' r
          else if a = PStr ''assertLessEqual'' then assert_less_equal x' r
          else if a = PStr ''assertEmpty'' then assert_empty r
          else if a = PStr ''assertNotEmpty'' then assert_not_empty r
          else Inr ''Fail - bad assertion'')"
proof -
  have eq: "\<And>s. py_eq a (PStr s) = (a = PStr s)"
    by (cases a) (auto split: option.splits)
  show ?thesis
    unfolding dispatch_def in_no_cast_list coerced_def eq
    by (cases "cast_expected_to_returned_type x r") simp_all
qed

lemma dispatch_recognised:
  assumes "in_list a assertions_list"
  shows "(\<exists>s. dispatch a x r p = Inr s \<and> is_verdict s) \<or> dispatch a x r p = Inl TypeError"
proof (cases "coerced a x r")
  case (Inl e)
  then have "e = TypeError" by (rule coerced_error)
  with Inl show ?thesis by (simp add: dispatch_unfold)
next
  case (Inr x')
  have ord: "\<And>opr. (\<exists>s. assert_ordered opr x' r = Inr s \<and> is_verdict s) \<or> assert_ordered opr x' r = Inl TypeError"
    by (rule assert_ordered_shape)
  from assms have "a = PStr ''assertEqual'' \<or> a = PStr ''assertNotEqual'' \<or> a = PStr ''assertTrue''
      \<or> a = PStr ''assertFalse'' \<or> a = PStr ''assertIn'' \<or> a = PStr ''assertNotIn''
      \<or> a = PStr ''assertGreater'' \<or> a = PStr ''assertGreaterEqual'' \<or> a = PStr ''assertLess''
      \<or> a = PStr ''assertLessEqual'' \<or> a = PStr ''assertEmpty'' \<or> a = PStr ''assertNotEmpty''"
    unfolding in_assertions_list .
  then show ?thesis
  proof (elim disjE)
    assume "a = PStr ''assertEqual''"
    with Inr show ?thesis using assert_equal_verdict[of x' r p] by (simp add: dispatch_unfold)
  next
    assume "a = PStr ''assertNotEqual''"
    with Inr show ?thesis using assert_not_equal_verdict[of x' r p] by (simp add: dispatch_unfold)
  next
    assume "a = PStr ''assertTrue''"
    with Inr show ?thesis using assert_true_verdict[of r] by (simp add: dispatch_unfold)
  next
    assume "a = PStr ''assertFalse''"
    with Inr show ?thesis using assert_false_verdict[of r] by (simp add: dispatch_unfold)
  next
    assume "a = PStr ''assertIn''"
    with Inr show ?thesis using assert_in_shape[of x' r p] by (simp add: dispatch_unfold)
  next
    assume "a = PStr ''assertNotIn''"
    with Inr show ?thesis using assert_not_in_shape[of x' r p] by (simp add: dispatch_unfold)
  next
    assume "a = PStr ''assertGreater''"
    with Inr show ?thesis using ord[of OpGt] by (simp add: dispatch_unfold assert_greater_def)
  next
    assume "a = PStr ''assertGreaterEqual''"
    with Inr show ?thesis using ord[of OpGe] by (simp add: dispatch_unfold assert_greater_equal_def)
  next
    assume "a = PStr ''assertLess''"
    with Inr show ?thesis using ord[of OpLt] by (simp add: dispatch_unfold assert_less_def)
  next
    assume "a = PStr ''assertLessEqual''"
    with Inr show ?thesis using ord[of OpLe] by (simp add: dispatch_unfold assert_less_equal_def)
  next
    assume "a = PStr ''assertEmpty''"
    with Inr show ?thesis using assert_empty_verdict[of r] by (simp add: dispatch_unfold)
  next
    assume "a = PStr ''assertNotEmpty''"
    with Inr show ?thesis using assert_not_empty_verdict[of r] by (simp add: dispatch_unfold)
  qed
qed


lemma is_verdict_not_bad: "is_verdict s \<Longrightarrow> s \<noteq> ''Fail - bad assertion'' \<and> s \<noteq> ''Skip'' \<and> s \<noteq> ''Fail - invalid test''"
  by (auto simp add: is_verdict_def)

lemma effective_assertion_valid:
  assumes v: "is_valid_test env td = Inr True"
    and ns: "\<not> truthy (td_get td ''skip'' (PBool False))"
  shows "\<exists>m a. td_index td ''module_and_function'' = Inr m \<and> effective_assertion td m = Inr a
           \<and> in_list a assertions_list"
proof -
  from valid_not_skipped[OF v ns] obtain m where
    m: "dict_get td (PStr ''module_and_function'') = Some m" and
    alt: "m = PStr ''saltcheck.state_apply''
               \<or> (\<exists>a. dict_get td (PStr ''assertion'') = Some a \<and> in_list a assertions_list)"
    by blast
  have 1: "td_index td ''module_and_function'' = Inr m" using m by (simp add: td_index_def)
  show ?thesis
  proof (cases "m = PStr ''saltcheck.state_apply''")
    case True
    then have "effective_assertion td m = Inr (PStr ''assertNotEmpty'')"
      by (simp add: effective_assertion_def in_list_def)
    with 1 show ?thesis by (simp add: in_assertions_list)
  next
    case False
    with alt obtain a where a: "dict_get td (PStr ''assertion'') = Some a" "in_list a assertions_list"
      by blast
    from False have "\<not> in_list m [PStr ''saltcheck.state_apply'']" by (simp add: in_list_def)
    then have "effective_assertion td m = Inr a" using a
      by (simp add: effective_assertion_def td_index_def)
    with 1 a show ?thesis by blast
  qed
qed

lemma run_valid_verdict:
  assumes v: "is_valid_test env td = Inr True"
    and ns: "\<not> truthy (td_get td ''skip'' (PBool False))"
    and r: "run_valid env td = Inr s"
  shows "is_verdict s"
proof -
  from effective_assertion_valid[OF v ns] obtain m a where
    m: "td_index td ''module_and_function'' = Inr m" and a: "effective_assertion td m = Inr a"
    and al: "in_list a assertions_list" by blast
  from r m a obtain x act p where "dispatch a x act p = Inr s"
    by (auto simp add: run_valid_def Let_def split: sum.splits)
  with dispatch_recognised[OF al, of x act p] show ?thesis by auto
qed

text \<open>
  C10. A test that passes validation and is not skipped has a \<open>module_and_function\<close>,
  and the assertion that is run for it (the alias's \<open>assertNotEmpty\<close>, or the declared
  one) is one of the twelve of \<open>assertions_list\<close>. So the last branch of the dispatch is
  never taken: no result of \<open>run_test\<close> has the status \<open>"Fail - bad assertion"\<close>.
\<close>

theorem bad_assertion_unreachable:
  "(is_valid_test env td = Inr True \<and> \<not> truthy (td_get td ''skip'' (PBool False)) \<longrightarrow>
      (\<exists>m a. td_index td ''module_and_function'' = Inr m \<and> effective_assertion td m = Inr a
           \<and> in_list a assertions_list))
   \<and> (\<forall>r. run_test env start end' td = Inr r \<longrightarrow> status r \<noteq> ''Fail - bad assertion'')"
proof (intro conjI impI allI)
  assume "is_valid_test env td = Inr True \<and> \<not> truthy (td_get td ''skip'' (PBool False))"
  then show "\<exists>m a. td_index td ''module_and_function'' = Inr m \<and> effective_assertion td m = Inr a
           \<and> in_list a assertions_list"
    using effective_assertion_valid by blast
next
  fix r assume rt: "run_test env start end' td = Inr r"
  show "status r \<noteq> ''Fail - bad assertion''"
  proof (cases "is_valid_test env td")
    case (Inl e) with rt show ?thesis by (simp add: run_test_def)
  next
    case (Inr valid)
    show ?thesis
    proof (cases "valid \<and> \<not> truthy (td_get td ''skip'' (PBool False))")
      case False
      with rt Inr show ?thesis by (auto simp add: run_test_def split: if_splits)
    next
      case True
      with rt Inr obtain s where s: "run_valid env td = Inr s" "status r = s"
        by (auto simp add: run_test_def split: sum.splits)
      from True Inr have "is_valid_test env td = Inr True" by simp
      from run_valid_verdict[OF this _ s(1)] True have "is_verdict s" by simp
      with s show ?thesis using is_verdict_not_bad by auto
    qed
  qed
qed

theorem bad_assertion_unreachable_witness:
  "is_valid_test (returning_env (PStr ''hello''))
     [(PStr ''module_and_function'', PStr ''test.echo''),
      (PStr ''assertion'', PStr ''assertEqual''),
      (PStr ''expected-return'', PStr ''hello'')] = Inr True
   \<and> (\<exists>m a. td_index [(PStr ''module_and_function'', PStr ''test.echo''),
      (PStr ''assertion'', PStr ''assertEqual''),
      (PStr ''expected-return'', PStr ''hello'')] ''module_and_function'' = Inr m
         \<and> effective_assertion [(PStr ''module_and_function'', PStr ''test.echo''),
      (PStr ''assertion'', PStr ''assertEqual''),
      (PStr ''expected-return'', PStr ''hello'')] m = Inr a \<and> in_list a assertions_list)
   \<and> run_test (returning_env (PStr ''hello'')) 0 0
     [(PStr ''module_and_function'', PStr ''test.echo''),
      (PStr ''assertion'', PStr ''assertEqual''),
      (PStr ''expected-return'', PStr ''hello'')] = Inr \<lparr>status = ''Pass'', duration = 0\<rparr>
   \<and> ''Pass'' \<noteq> ''Fail - bad assertion''"
proof -
  let ?td = "[(PStr ''module_and_function'', PStr ''test.echo''),
      (PStr ''assertion'', PStr ''assertEqual''),
      (PStr ''expected-return'', PStr ''hello'')]"
  let ?env = "returning_env (PStr ''hello'')"
  have v: "is_valid_test ?env ?td = Inr True"
    by (simp add: is_valid_test_def score_m_and_f_def is_valid_module_def is_valid_function_def
        returning_env_def required_total_def td_get_def in_list_def assertions_list_def)
  have ns: "\<not> truthy (td_get ?td ''skip'' (PBool False))" by (simp add: td_get_def)
  have rv: "run_valid ?env ?td = Inr ''Pass''"
    by (simp add: run_valid_def td_index_def td_get_def final_kwargs_def inject_def
        effective_assertion_def in_list_def call_salt_command_def call_value_def invoke_def
        returning_env_def drill_def dispatch_unfold coerced_def
        cast_expected_to_returned_type_def assert_equal_def)
  have rt: "run_test ?env 0 0 ?td = Inr \<lparr>status = ''Pass'', duration = 0\<rparr>"
    using v rv by (simp add: run_test_def td_get_def round4_def)
  from bad_assertion_unreachable[of ?env ?td 0 0] v ns rt show ?thesis by simp
qed

section \<open>Running a test\<close>

text \<open>
  C6. When \<open>module_and_function\<close> is the alias \<open>saltcheck.state_apply\<close>, a test that is
  run (valid and not skipped) ends in \<open>assertNotEmpty\<close> on what the operation returned;
  the \<open>assertion\<close> field of the definition plays no part in the result.
\<close>

theorem state_apply_runs_assert_not_empty:
  assumes mf: "dict_get td (PStr ''module_and_function'') = Some (PStr ''saltcheck.state_apply'')"
    and v: "is_valid_test env td = Inr True"
    and ns: "\<not> truthy (td_get td ''skip'' (PBool False))"
  shows "run_test env start end' td =
     (case final_kwargs td of
        Inl e \<Rightarrow> Inl e
      | Inr kwargs \<Rightarrow>
          (case call_salt_command env (PStr ''saltcheck.state_apply'') (td_get td ''args'' PNone)
                  kwargs (td_get td ''assertion_section'' PNone) of
             Inl e \<Rightarrow> Inl e
           | Inr actual_return \<Rightarrow>
               (case assert_not_empty actual_return of
                  Inl e \<Rightarrow> Inl e
                | Inr v \<Rightarrow> Inr \<lparr>status = v, duration = round4 (end' - start)\<rparr>)))"
proof -
  have ea: "effective_assertion td (PStr ''saltcheck.state_apply'') = Inr (PStr ''assertNotEmpty'')"
    by (simp add: effective_assertion_def in_list_def)
  have d: "\<And>x r p. dispatch (PStr ''assertNotEmpty'') x r p = assert_not_empty r"
    by (simp add: dispatch_unfold coerced_def)
  have "run_valid env td =
     (case final_kwargs td of
        Inl e \<Rightarrow> Inl e
      | Inr kwargs \<Rightarrow>
          (case call_salt_command env (PStr ''saltcheck.state_apply'') (td_get td ''args'' PNone)
                  kwargs (td_get td ''assertion_section'' PNone) of
             Inl e \<Rightarrow> Inl e
           | Inr actual_return \<Rightarrow> assert_not_empty actual_return))"
    using mf by (simp add: run_valid_def td_index_def ea d Let_def split: sum.splits)
  then show ?thesis using v ns
    by (simp add: run_test_def split: sum.splits)
qed

theorem state_apply_runs_assert_not_empty_witness:
  "run_test (returning_env (PDict [(PStr ''x'', PInt 1)])) 0 0
     [(PStr ''module_and_function'', PStr ''saltcheck.state_apply''),
      (PStr ''assertion'', PStr ''assertEmpty'')]
   = Inr \<lparr>status = ''Pass'', duration = 0\<rparr>"
  using state_apply_runs_assert_not_empty[of "[(PStr ''module_and_function'', PStr ''saltcheck.state_apply''),
      (PStr ''assertion'', PStr ''assertEmpty'')]" "returning_env (PDict [(PStr ''x'', PInt 1)])" 0 0]
  by (simp add: is_valid_test_def score_m_and_f_def is_valid_module_def is_valid_function_def
      returning_env_def required_total_def td_get_def in_list_def assertions_list_def
      final_kwargs_def inject_def py_pop_def call_salt_command_def call_value_def invoke_def
      drill_def assert_not_empty_def round4_def)

text \<open>A skipped test gives \<open>Skip\<close> whenever its validation returns at all.\<close>

lemma skipped_when_validation_returns:
  assumes "is_valid_test env td = Inr valid" and "truthy (td_get td ''skip'' (PBool False))"
  shows "run_test env start end' td = Inr \<lparr>status = ''Skip'', duration = 0\<rparr>"
proof -
  from assms have "valid"
    by (auto simp add: is_valid_test_def required_total_def Let_def split: sum.splits)
  with assms show ?thesis by (simp add: run_test_def)
qed

text \<open>
  C9. A definition with \<open>skip: true\<close> is meant to give \<open>Skip\<close> whatever else it holds:
  validation asks nothing of it (\<open>required_total = 0\<close>). But validation still scores
  \<open>module_and_function\<close> before \<open>run_test\<close> looks at \<open>skip\<close>, and unpacking the
  \<open>split\<close> of a text without a dot raises \<open>ValueError\<close>.
\<close>

theorem skipped_test_with_undotted_operation_raises:
  "run_test env start end'
     [(PStr ''skip'', PBool True), (PStr ''module_and_function'', PStr ''nodot'')]
   = Inl ValueError"
  by (simp add: run_test_def is_valid_test_def td_get_def score_m_and_f_def)

text \<open>
  C4, as stated, fails: a result that is not a mapping is returned as it is, whatever
  \<open>assertion_section\<close> says; the sentinel \<open>"False"\<close> is not put in its place. And
  the empty text, which is not null, leaves a mapping as it is.
\<close>

theorem non_mapping_result_is_kept:
  "call_salt_command (returning_env (PInt 5)) (PStr ''test.echo'') PNone (PDict []) (PStr ''k'')
     = Inr (PInt 5)
   \<and> call_salt_command (returning_env (PInt 5)) (PStr ''test.echo'') PNone (PDict []) (PStr ''k'')
     \<noteq> Inr (PStr ''False'')
   \<and> call_salt_command (returning_env (PDict [(PStr ''k'', PInt 1)])) (PStr ''test.echo'') PNone
       (PDict []) (PStr [])
     = Inr (PDict [(PStr ''k'', PInt 1)])"
  by (simp add: call_salt_command_def call_value_def invoke_def returning_env_def drill_def)

text \<open>
  C4, amended. When the operation returns \<open>v\<close> and \<open>assertion_section\<close> is a non-empty
  text: if \<open>v\<close> is a mapping, the actual value is the \<open>str\<close> of the value at that key,
  and the text \<open>"False"\<close> when the key is missing; if \<open>v\<close> is not a mapping, the actual
  value is \<open>v\<close> itself. (With an empty text it is \<open>v\<close> itself too.)
\<close>

theorem drill_into_result:
  assumes "call_value env fn args kwargs = Inr v"
  shows "(\<forall>d x. v = PDict d \<and> s \<noteq> [] \<and> dict_get d (PStr s) = Some x \<longrightarrow>
            call_salt_command env fn args kwargs (PStr s) = Inr (PStr (py_str x)))
       \<and> (\<forall>d. v = PDict d \<and> s \<noteq> [] \<and> dict_get d (PStr s) = None \<longrightarrow>
            call_salt_command env fn args kwargs (PStr s) = Inr (PStr ''False''))
       \<and> ((\<forall>d. v \<noteq> PDict d) \<longrightarrow> call_salt_command env fn args kwargs (PStr s) = Inr v)
       \<and> (s = [] \<longrightarrow> call_salt_command env fn args kwargs (PStr s) = Inr v)"
  using assms by (auto simp add: call_salt_command_def drill_def split: pyval.splits)

theorem drill_into_result_witness:
  "call_value (returning_env (PDict [(PStr ''shell'', PStr ''/bin/bash''), (PStr ''uid'', PInt 0)]))
     (PStr ''user.info'') (PList [PStr ''root'']) (PDict [])
     = Inr (PDict [(PStr ''shell'', PStr ''/bin/bash''), (PStr ''uid'', PInt 0)])
   \<and> call_salt_command
       (returning_env (PDict [(PStr ''shell'', PStr ''/bin/bash''), (PStr ''uid'', PInt 0)]))
       (PStr ''user.info'') (PList [PStr ''root'']) (PDict []) (PStr ''uid'') = Inr (PStr ''0'')"
proof -
  let ?v = "PDict [(PStr ''shell'', PStr ''/bin/bash''), (PStr ''uid'', PInt 0)]"
  have cv: "call_value (returning_env ?v) (PStr ''user.info'') (PList [PStr ''root'']) (PDict [])
              = Inr ?v"
    by (simp add: call_value_def star_args_def invoke_def returning_env_def)
  from drill_into_result[OF cv, of "''uid''"] cv show ?thesis
    by (simp add: str_of_int_def str_of_nat.simps)
qed

section \<open>Loading and merging test files\<close>

lemma od_set_keys: "map fst (od_set d k v) = (if k \<in> set (map fst d) then map fst d else map fst d @ [k])"
proof (induction d)
  case Nil
  then show ?case by simp
next
  case (Cons a d)
  obtain k' v' where a: "a = (k', v')" by (cases a)
  show ?case using Cons.IH by (auto simp add: a)
qed

lemma od_set_distinct: "distinct (map fst d) \<Longrightarrow> distinct (map fst (od_set d k v))"
  by (simp add: od_set_keys)

lemma od_set_map_of: "map_of (od_set d k v) = (map_of d)(k \<mapsto> v)"
  by (induction d) auto

lemma od_set_length: "length d \<le> length (od_set d k v)"
  by (induction d) auto

lemma od_set_nth_key: "i < length d \<Longrightarrow> fst (od_set d k v ! i) = fst (d ! i)"
proof (induction d arbitrary: i)
  case Nil then show ?case by simp
next
  case (Cons a d) then show ?case by (cases i; cases a) auto
qed

lemma fold_od_set_distinct:
  "distinct (map fst d) \<Longrightarrow> distinct (map fst (fold (\<lambda>(key, val) d. od_set d key val) items d))"
  by (induction items arbitrary: d) (auto simp add: od_set_distinct)

lemma fold_od_set_length: "length d \<le> length (fold (\<lambda>(key, val) d. od_set d key val) items d)"
proof (induction items arbitrary: d)
  case Nil then show ?case by simp
next
  case (Cons a items)
  obtain k v where a: "a = (k, v)" by (cases a)
  have "length d \<le> length (od_set d k v)" by (rule od_set_length)
  also have "\<dots> \<le> length (fold (\<lambda>(key, val) d. od_set d key val) items (od_set d k v))"
    by (rule Cons.IH)
  finally show ?case by (simp add: a)
qed

lemma fold_od_set_nth_key:
  "i < length d \<Longrightarrow> fst (fold (\<lambda>(key, val) d. od_set d key val) items d ! i) = fst (d ! i)"
proof (induction items arbitrary: d)
  case Nil then show ?case by simp
next
  case (Cons a items)
  obtain k v where a: "a = (k, v)" by (cases a)
  have "i < length (od_set d k v)" using Cons.prems od_set_length[of d k v] by simp
  from Cons.IH[OF this] show ?case using Cons.prems by (simp add: a od_set_nth_key)
qed

lemma fold_od_set_map_of:
  "distinct (map fst items) \<Longrightarrow> (x, v) \<in> set items \<Longrightarrow>
   map_of (fold (\<lambda>(key, val) d. od_set d key val) items d) x = Some v"
proof (induction items arbitrary: d)
  case Nil then show ?case by simp
next
  case (Cons a items)
  obtain k w where a: "a = (k, w)" by (cases a)
  show ?case
  proof (cases "(x, v) \<in> set items")
    case True
    with Cons show ?thesis by (simp add: a)
  next
    case False
    with Cons.prems have xv: "k = x" "w = v" and notin: "x \<notin> fst ` set items" by (auto simp add: a)
    have "\<And>d. x \<notin> fst ` set items \<Longrightarrow> map_of (fold (\<lambda>(key, val) d. od_set d key val) items d) x = map_of d x"
    proof -
      fix d show "x \<notin> fst ` set items \<Longrightarrow> map_of (fold (\<lambda>(key, val) d. od_set d key val) items d) x = map_of d x"
        by (induction items arbitrary: d) (auto simp add: od_set_map_of)
    qed
    from this[OF notin] show ?thesis by (simp add: a xv od_set_map_of)
  qed
qed

lemma fold_od_set_fresh:
  "distinct (map fst items) \<Longrightarrow> fold (\<lambda>(key, val) d. od_set d key val) items [] = items"
proof -
  have g: "\<And>d. distinct (map fst (d @ items)) \<Longrightarrow> fold (\<lambda>(key, val) d. od_set d key val) items d = d @ items"
  proof (induction items)
    case Nil then show ?case by simp
  next
    case (Cons a items)
    obtain k w where a: "a = (k, w)" by (cases a)
    have nk: "k \<notin> fst ` set d" using Cons.prems by (auto simp add: a)
    have app: "od_set d k w = d @ [(k, w)]" using nk by (induction d) auto
    have "distinct (map fst ((d @ [(k, w)]) @ items))" using Cons.prems by (simp add: a)
    from Cons.IH[OF this] show ?case by (simp add: a app)
  qed
  assume "distinct (map fst items)"
  then show ?thesis using g[of "[]"] by simp
qed

lemma distinct_key_once:
  "distinct (map fst xs) \<Longrightarrow> (x, v) \<in> set xs \<Longrightarrow> length (filter (\<lambda>kv. fst kv = x) xs) = 1"
proof (induction xs)
  case Nil then show ?case by simp
next
  case (Cons a xs)
  show ?case
  proof (cases "fst a = x")
    case True
    with Cons.prems have "filter (\<lambda>kv. fst kv = x) xs = []"
      by (auto simp add: filter_empty_conv image_iff)
    with True show ?thesis by simp
  next
    case False
    with Cons show ?thesis by auto
  qed
qed

text \<open>
  C8. Two files are loaded in the order of discovery, and a test named \<open>x\<close> is at place
  \<open>i\<close> of the first and somewhere in the second. Then the merged mapping has exactly one
  entry named \<open>x\<close>; it is at place \<open>i\<close>, where \<open>x\<close> was first seen, and its value is the
  one of the second file.
\<close>

theorem merge_later_file_wins:
  assumes tf: "test_files st = [f1, f2]"
    and d1: "distinct (map fst (rendered f1))" and d2: "distinct (map fst (rendered f2))"
    and i: "i < length (rendered f1)" and x1: "rendered f1 ! i = (x, v1)"
    and x2: "(x, v2) \<in> set (rendered f2)"
  shows "length (filter (\<lambda>kv. fst kv = x) (test_dict (load_test_suite rendered st))) = 1
       \<and> test_dict (load_test_suite rendered st) ! i = (x, v2)"
proof -
  let ?F = "\<lambda>items d. fold (\<lambda>(key, val) d. od_set d key val) items d"
  let ?res = "test_dict (load_test_suite rendered st)"
  have res: "?res = ?F (rendered f2) (rendered f1)"
    using tf d1 by (simp add: load_test_suite_def load_file_salt_rendered_def fold_od_set_fresh)
  have dist: "distinct (map fst ?res)" unfolding res using d1 by (rule fold_od_set_distinct)
  have mo: "map_of ?res x = Some v2" unfolding res using d2 x2 by (rule fold_od_set_map_of)
  then have mem: "(x, v2) \<in> set ?res" by (rule map_of_SomeD)
  have "fst (?res ! i) = x" unfolding res using i x1 by (simp add: fold_od_set_nth_key)
  moreover have il: "i < length ?res" unfolding res using i fold_od_set_length[of "rendered f1" "rendered f2"] by simp
  ultimately have "(x, snd (?res ! i)) \<in> set ?res" by (metis nth_mem prod.collapse)
  with dist mem have "snd (?res ! i) = v2" by (meson eq_key_imp_eq_value)
  with \<open>fst (?res ! i) = x\<close> have "?res ! i = (x, v2)" by (metis prod.collapse)
  moreover have "length (filter (\<lambda>kv. fst kv = x) ?res) = 1" using dist mem by (rule distinct_key_once)
  ultimately show ?thesis by simp
qed

theorem merge_later_file_wins_witness:
  "test_dict (load_test_suite
       (\<lambda>f. if f = ''one.tst'' then [(''w'', PInt 0), (''x'', PInt 1)] else [(''x'', PInt 2), (''y'', PInt 3)])
       \<lparr>search_paths = [], test_files = [''one.tst'', ''two.tst''], test_dict = []\<rparr>) ! 1
   = (''x'', PInt 2)"
  using merge_later_file_wins[of
      "\<lparr>search_paths = [], test_files = [''one.tst'', ''two.tst''], test_dict = []\<rparr>"
      "''one.tst''" "''two.tst''"
      "\<lambda>f. if f = ''one.tst'' then [(''w'', PInt 0), (''x'', PInt 1)] else [(''x'', PInt 2), (''y'', PInt 3)]"
      1 "''x''" "PInt 1" "PInt 2"]
  by simp

section \<open>Discovery of test files\<close>

lemma rpartition_a_b: "rpartition CHR ''.'' ''a.b'' = (''a'', ''.'', ''b'')"
  by (simp add: rpartition_def)

lemma convert_a: "convert_sls_to_path ''a'' = ''a''"
  by (simp add: convert_sls_to_path_def)

lemma add_loop_probe:
  "add_loop fs (''a'', ''.'', ''b'') False roots st
   = st\<lparr>test_files := test_files st @
          concat (map (\<lambda>R. if isdir fs (R @ ''/a'')
                          then filter (isfile fs)
                                 [R @ ''/a/b/saltcheck-tests/init.tst'',
                                  R @ ''/a/saltcheck-tests/b.tst'']
                          else [])
                   roots)\<rparr>"
proof (induction roots arbitrary: st)
  case Nil
  then show ?case by simp
next
  case (Cons R roots)
  show ?case
    by (simp add: Cons.IH convert_a os_sep_def Let_def)
qed

lemma add_loop_all:
  "add_loop fs (''a'', ''.'', ''b'') True roots st
   = (case find (\<lambda>R. isdir fs (R @ ''/a'')) roots of
        None \<Rightarrow> st
      | Some R \<Rightarrow> gather_files fs st (R @ ''/a/b''))"
  by (induction roots) (simp_all add: convert_a os_sep_def)

text \<open>
  C7. For the unit \<open>a.b\<close>, on a file system where a file below \<open>R/a\<close> can only exist
  when \<open>R/a\<close> is a directory. Without \<open>check_all\<close> the loader appends, for each search
  root \<open>R\<close> in turn, those of \<open>R/a/b/saltcheck-tests/init.tst\<close> and
  \<open>R/a/saltcheck-tests/b.tst\<close> that are files, and nothing else. With \<open>check_all\<close> it
  stops at the first root \<open>R\<close> whose base path \<open>R/a\<close> is a directory, and its files are
  then, for each directory that the walk of \<open>R/a/b/saltcheck-tests\<close> yields, the names ending
  in \<open>.tst\<close> in sorted order.
\<close>

theorem discovery_for_a_b:
  assumes coherent: "\<forall>R \<in> set (search_paths st).
       isfile fs (R @ ''/a/b/saltcheck-tests/init.tst'') \<or> isfile fs (R @ ''/a/saltcheck-tests/b.tst'')
       \<longrightarrow> isdir fs (R @ ''/a'')"
  shows "add_test_files_for_sls fs st ''a.b'' False
         = st\<lparr>test_files := test_files st @
               concat (map (\<lambda>R. filter (isfile fs)
                  [R @ ''/a/b/saltcheck-tests/init.tst'', R @ ''/a/saltcheck-tests/b.tst''])
                 (search_paths st))\<rparr>
       \<and> add_test_files_for_sls fs st ''a.b'' True
         = (case find (\<lambda>R. isdir fs (R @ ''/a'')) (search_paths st) of
              None \<Rightarrow> st
            | Some R \<Rightarrow>
                st\<lparr>test_files :=
                  concat (map (\<lambda>(dirname, dummy, filelist).
                            map (\<lambda>fname. abspath fs (dirname @ ''/'' @ fname))
                              (filter (\<lambda>fname. suffix ''.tst'' fname) (sort filelist)))
                          (os_walk fs (R @ ''/a/b/saltcheck-tests'')))\<rparr>)"
proof -
  have eq: "map (\<lambda>R. if isdir fs (R @ ''/a'')
                          then filter (isfile fs)
                                 [R @ ''/a/b/saltcheck-tests/init.tst'',
                                  R @ ''/a/saltcheck-tests/b.tst'']
                          else []) (search_paths st)
        = map (\<lambda>R. filter (isfile fs)
                  [R @ ''/a/b/saltcheck-tests/init.tst'', R @ ''/a/saltcheck-tests/b.tst''])
                 (search_paths st)"
    using coherent by (intro map_cong refl) auto
  have 1: "add_test_files_for_sls fs st ''a.b'' False
         = st\<lparr>test_files := test_files st @
               concat (map (\<lambda>R. filter (isfile fs)
                  [R @ ''/a/b/saltcheck-tests/init.tst'', R @ ''/a/saltcheck-tests/b.tst''])
                 (search_paths st))\<rparr>"
    unfolding add_test_files_for_sls_def rpartition_a_b add_loop_probe eq by (rule refl)
  have 2: "add_test_files_for_sls fs st ''a.b'' True
         = (case find (\<lambda>R. isdir fs (R @ ''/a'')) (search_paths st) of
              None \<Rightarrow> st
            | Some R \<Rightarrow>
                st\<lparr>test_files :=
                  concat (map (\<lambda>(dirname, dummy, filelist).
                            map (\<lambda>fname. abspath fs (dirname @ ''/'' @ fname))
                              (filter (\<lambda>fname. suffix ''.tst'' fname) (sort filelist)))
                          (os_walk fs (R @ ''/a/b/saltcheck-tests'')))\<rparr>)"
    by (simp add: add_test_files_for_sls_def rpartition_a_b add_loop_all gather_files_def
        os_sep_def split: option.splits)
  from 1 2 show ?thesis by (rule conjI)
qed

theorem discovery_for_a_b_witness:
  "test_files (add_test_files_for_sls demo_fs
       \<lparr>search_paths = [''/none'', ''/srv''], test_files = [], test_dict = []\<rparr> ''a.b'' False)
     = [''/srv/a/saltcheck-tests/b.tst'']
   \<and> test_files (add_test_files_for_sls demo_fs
       \<lparr>search_paths = [''/none'', ''/srv''], test_files = [], test_dict = []\<rparr> ''a.b'' True)
     = [''/srv/a/b/saltcheck-tests/a.tst'', ''/srv/a/b/saltcheck-tests/z.tst'',
        ''/srv/a/b/saltcheck-tests/sub/m.tst'']"
  using discovery_for_a_b[of
      "\<lparr>search_paths = [''/none'', ''/srv''], test_files = [], test_dict = []\<rparr>" demo_fs]
  by (simp add: demo_fs_def suffix_to_prefix)

section \<open>Exceptions that leave \<open>run_test\<close>\<close>

lemma is_valid_module_error: "is_valid_module env m = Inl e \<Longrightarrow> \<exists>c. e = IntrospectionError c"
  by (auto simp add: is_valid_module_def split: sum.splits)

lemma is_valid_function_error: "is_valid_function env m f = Inl e \<Longrightarrow> \<exists>c. e = IntrospectionError c"
  by (auto simp add: is_valid_function_def split: sum.splits cexc.splits)

lemma score_m_and_f_error:
  "score_m_and_f env m = Inl e \<Longrightarrow>
     e = ValueError \<or> e = AttributeError \<or> (\<exists>c. e = IntrospectionError c)"
  by (auto simp add: score_m_and_f_def split: if_splits pyval.splits list.splits sum.splits
      dest: is_valid_module_error is_valid_function_error)




















end
